theory Spec2Isabelle
  imports Complex_Main "HOL-Library.Word"
begin

section \<open>JavaScript strings and primitive values\<close>

text \<open>
  A JavaScript string is a sequence of 16-bit code units. Property names, filter values,
  error messages and search queries are all such strings. \<open>js\<close> embeds an ASCII literal.
\<close>

type_synonym jschar = "16 word"
type_synonym jsstring = "jschar list"

definition js :: "string \<Rightarrow> jsstring" where
  "js s = map (\<lambda>c. of_nat (of_char c)) s"

text \<open>
  The primitive values a filter property can hold. Numbers are the integers: the hook only
  adds, subtracts and multiplies them, which doubles do exactly below \<open>2^53\<close>.
\<close>

datatype jsval = JUndefined | JNull | JBool bool | JNum int | JStr jsstring

section \<open>The filter object\<close>

text \<open>
  \<open>filters\<close> in \<open>useDocuments.js\<close> is an object whose first two own properties are always
  \<open>skip\<close> and \<open>limit\<close> (every state is built from the literal \<open>{skip: 0, limit: 20, ...}\<close> or by
  spreading an earlier state, and a spread keeps the position of an existing key).
  Both hold integers. The remaining own properties (\<open>search\<close>, \<open>filing_type\<close>, \<open>company_name\<close>,
  \<open>start_date\<close>, \<open>end_date\<close>, or whatever else a caller passes) are kept in insertion order,
  the order \<open>JSON.stringify\<close> enumerates them in. Property names that are array indices,
  which JavaScript enumerates first, are not used as filter names.
\<close>

type_synonym props = "(jsstring \<times> jsval) list"

record filter_state =
  skip :: int
  limit :: int
  other_props :: props

text \<open>
  The argument of \<open>updateFilters\<close> (and \<open>initialFilters\<close>): a partial filter object. The
  pagination keys are optional integers; \<open>new_props\<close> holds its other keys in order.
\<close>

record payload =
  new_skip :: "int option"
  new_limit :: "int option"
  new_props :: props

definition no_filters :: payload where
  "no_filters = \<lparr>new_skip = None, new_limit = None, new_props = []\<rparr>"

text \<open>Assigning one property: an existing key keeps its position, a new key goes last.\<close>

fun set_prop :: "jsstring \<Rightarrow> jsval \<Rightarrow> props \<Rightarrow> props" where
  "set_prop k v [] = [(k, v)]"
| "set_prop k v ((k', v') # ps) =
     (if k = k' then (k, v) # ps else (k', v') # set_prop k v ps)"

definition spread_props :: "props \<Rightarrow> props \<Rightarrow> props" where
  "spread_props ps qs = foldl (\<lambda>acc (k, v). set_prop k v acc) ps qs"

text \<open>\<open>{...prev, ...p}\<close>\<close>

definition spread :: "filter_state \<Rightarrow> payload \<Rightarrow> filter_state" where
  "spread prev p =
     \<lparr>skip = (case new_skip p of None \<Rightarrow> skip prev | Some s \<Rightarrow> s),
      limit = (case new_limit p of None \<Rightarrow> limit prev | Some l \<Rightarrow> l),
      other_props = spread_props (other_props prev) (new_props p)\<rparr>"

subsection \<open>The state updaters of the hook\<close>

text \<open>\<open>setFilters((prev) => ({...prev, ...newFilters, skip: 0}))\<close>\<close>

definition updateFilters :: "payload \<Rightarrow> filter_state \<Rightarrow> filter_state" where
  "updateFilters newFilters prev = (spread prev newFilters)\<lparr>skip := 0\<rparr>"

text \<open>\<open>setFilters({skip: 0, limit: 20})\<close>\<close>

definition clearFilters :: filter_state where
  "clearFilters = \<lparr>skip = 0, limit = 20, other_props = []\<rparr>"

text \<open>\<open>setFilters((prev) => ({...prev}))\<close>: a new object with the same properties.\<close>

definition refetch :: "filter_state \<Rightarrow> filter_state" where
  "refetch prev = spread prev no_filters"

definition nextPage :: "filter_state \<Rightarrow> filter_state" where
  "nextPage prev = prev\<lparr>skip := skip prev + limit prev\<rparr>"

definition prevPage :: "filter_state \<Rightarrow> filter_state" where
  "prevPage prev = prev\<lparr>skip := max 0 (skip prev - limit prev)\<rparr>"

definition goToPage :: "int \<Rightarrow> filter_state \<Rightarrow> filter_state" where
  "goToPage page prev = prev\<lparr>skip := page * limit prev\<rparr>"

datatype action =
  UpdateFilters payload | ClearFilters | Refetch | NextPage | PrevPage | GoToPage int

fun setFilters :: "action \<Rightarrow> filter_state \<Rightarrow> filter_state" where
  "setFilters (UpdateFilters p) prev = updateFilters p prev"
| "setFilters ClearFilters prev = clearFilters"
| "setFilters Refetch prev = refetch prev"
| "setFilters NextPage prev = nextPage prev"
| "setFilters PrevPage prev = prevPage prev"
| "setFilters (GoToPage page) prev = goToPage page prev"

text \<open>
  \<open>handleSearch\<close> of \<open>DocumentList.jsx\<close> calls \<open>updateFilters({search: searchTerm || undefined})\<close>.
\<close>

definition search_payload :: "jsstring \<Rightarrow> payload" where
  "search_payload searchTerm =
     \<lparr>new_skip = None, new_limit = None,
      new_props = [(js ''search'', if searchTerm = [] then JUndefined else JStr searchTerm)]\<rparr>"



section \<open>\<open>JSON.stringify\<close> of the filter object\<close>

definition hexdigit :: "nat \<Rightarrow> jschar" where
  "hexdigit d = of_nat (of_char (''0123456789abcdef'' ! (d mod 16)))"

text \<open>\<open>\uXXXX\<close> with four lower-case hexadecimal digits.\<close>

definition UnicodeEscape :: "jschar \<Rightarrow> jsstring" where
  "UnicodeEscape c =
     (let n = unat c
      in [0x5C, 0x75, hexdigit (n div 4096), hexdigit (n div 256), hexdigit (n div 16),
          hexdigit n])"

definition is_leading_surrogate :: "jschar \<Rightarrow> bool" where
  "is_leading_surrogate c = (0xD800 \<le> c \<and> c \<le> 0xDBFF)"

definition is_trailing_surrogate :: "jschar \<Rightarrow> bool" where
  "is_trailing_surrogate c = (0xDC00 \<le> c \<and> c \<le> 0xDFFF)"

definition quote_code_unit :: "jschar \<Rightarrow> jsstring" where
  "quote_code_unit c =
     (if c = 0x08 then [0x5C, 0x62]
      else if c = 0x09 then [0x5C, 0x74]
      else if c = 0x0A then [0x5C, 0x6E]
      else if c = 0x0C then [0x5C, 0x66]
      else if c = 0x0D then [0x5C, 0x72]
      else if c = 0x22 then [0x5C, 0x22]
      else if c = 0x5C then [0x5C, 0x5C]
      else if c < 0x20 \<or> is_leading_surrogate c \<or> is_trailing_surrogate c
        then UnicodeEscape c
      else [c])"

text \<open>A surrogate pair is one code point and is copied; a lone surrogate is escaped.\<close>

fun quote_code_units :: "jsstring \<Rightarrow> jsstring" where
  "quote_code_units (c # d # cs) =
     (if is_leading_surrogate c \<and> is_trailing_surrogate d
      then c # d # quote_code_units cs
      else quote_code_unit c @ quote_code_units (d # cs))"
| "quote_code_units [c] = quote_code_unit c"
| "quote_code_units [] = []"

definition QuoteJSONString :: "jsstring \<Rightarrow> jsstring" where
  "QuoteJSONString s = 0x22 # quote_code_units s @ [0x22]"

fun digits :: "nat \<Rightarrow> string" where
  "digits n =
     (if n < 10 then [''0123456789'' ! n]
      else digits (n div 10) @ [''0123456789'' ! (n mod 10)])"

declare digits.simps [simp del]

text \<open>An integer prints in plain decimal (JavaScript does so below \<open>10^21\<close>).\<close>

definition NumberToString :: "int \<Rightarrow> jsstring" where
  "NumberToString n =
     (if n < 0 then js ''-'' @ js (digits (nat (- n))) else js (digits (nat n)))"

text \<open>\<open>None\<close> is \<open>undefined\<close>: the property is left out of the output.\<close>

fun SerializeJSONProperty :: "jsval \<Rightarrow> jsstring option" where
  "SerializeJSONProperty JUndefined = None"
| "SerializeJSONProperty JNull = Some (js ''null'')"
| "SerializeJSONProperty (JBool b) = Some (js (if b then ''true'' else ''false''))"
| "SerializeJSONProperty (JNum n) = Some (NumberToString n)"
| "SerializeJSONProperty (JStr s) = Some (QuoteJSONString s)"

fun SerializeJSONObject :: "props \<Rightarrow> jsstring list" where
  "SerializeJSONObject [] = []"
| "SerializeJSONObject ((k, v) # ps) =
     (case SerializeJSONProperty v of
        None \<Rightarrow> SerializeJSONObject ps
      | Some str \<Rightarrow> (QuoteJSONString k @ js '':'' @ str) # SerializeJSONObject ps)"

fun join_comma :: "jsstring list \<Rightarrow> jsstring" where
  "join_comma [] = []"
| "join_comma [x] = x"
| "join_comma (x # y # xs) = x @ js '','' @ join_comma (y # xs)"

definition own_properties :: "filter_state \<Rightarrow> props" where
  "own_properties f = (js ''skip'', JNum (skip f)) # (js ''limit'', JNum (limit f)) # other_props f"

definition JSON_stringify :: "filter_state \<Rightarrow> jsstring" where
  "JSON_stringify f = js ''{'' @ join_comma (SerializeJSONObject (own_properties f)) @ js ''}''"

section \<open>The hook \<open>useDocuments\<close>\<close>

text \<open>
  The \<open>useState\<close> cells and the ref of the hook. \<open>error\<close> and \<open>prevFiltersRef\<close> are \<open>None\<close> for
  \<open>null\<close> and \<open>undefined\<close>. Two more fields record the network: \<open>requests\<close> lists the arguments
  of every \<open>documentAPI.listDocuments\<close> call made so far, \<open>settled\<close> counts the responses that
  have come back. The hook never looks inside a document, so their type is a parameter.
\<close>

record 'd hook =
  documents :: "'d list"
  total :: int
  loading :: bool
  error :: "jsstring option"
  filters :: filter_state
  prevFiltersRef :: "jsstring option"
  requests :: "filter_state list"
  settled :: nat

text \<open>
  \<open>fetchDocuments\<close> up to its \<open>await\<close>: the guard on the serialized filters, then the
  request.
\<close>

definition fetchDocuments :: "'d hook \<Rightarrow> 'd hook" where
  "fetchDocuments h =
     (let filtersStr = JSON_stringify (filters h)
      in if prevFiltersRef h = Some filtersStr then h
         else h\<lparr>prevFiltersRef := Some filtersStr, loading := True, error := None,
                requests := requests h @ [filters h]\<rparr>)"

text \<open>
  What comes back: the items and total of \<open>response.data\<close>, or an error whose
  \<open>err.response?.data?.detail\<close> is a message string or is missing (\<open>None\<close>).
\<close>

datatype 'd response = Resolved "'d list" int | Rejected "jsstring option"

text \<open>\<open>err.response?.data?.detail || 'Failed to fetch documents'\<close>: an empty string is falsy.\<close>

definition error_message :: "jsstring option \<Rightarrow> jsstring" where
  "error_message detail =
     (case detail of
        None \<Rightarrow> js ''Failed to fetch documents''
      | Some d \<Rightarrow> if d = [] then js ''Failed to fetch documents'' else d)"

text \<open>\<open>fetchDocuments\<close> after its \<open>await\<close>: the \<open>try\<close>, \<open>catch\<close> and \<open>finally\<close> branches.\<close>

fun fetchDocuments_resume :: "'d response \<Rightarrow> 'd hook \<Rightarrow> 'd hook" where
  "fetchDocuments_resume (Resolved items tot) h =
     h\<lparr>documents := items, total := tot, loading := False, settled := settled h + 1\<rparr>"
| "fetchDocuments_resume (Rejected detail) h =
     h\<lparr>error := Some (error_message detail), loading := False, settled := settled h + 1\<rparr>"

text \<open>
  Mounting: the initial state, then the effect. Every later call of an updater stores a new
  filter object, so the component renders again and the effect runs again.
\<close>

definition initial_state :: "payload \<Rightarrow> 'd hook" where
  "initial_state initialFilters =
     \<lparr>documents = [], total = 0, loading = False, error = None,
      filters = spread \<lparr>skip = 0, limit = 20, other_props = []\<rparr> initialFilters,
      prevFiltersRef = None, requests = [], settled = 0\<rparr>"

definition useDocuments :: "payload \<Rightarrow> 'd hook" where
  "useDocuments initialFilters = fetchDocuments (initial_state initialFilters)"

definition call :: "action \<Rightarrow> 'd hook \<Rightarrow> 'd hook" where
  "call a h = fetchDocuments (h\<lparr>filters := setFilters a (filters h)\<rparr>)"

text \<open>
  The events of the hook's life: a call of one of its functions, or a response to a request
  still in flight. Responses may come back in any order; the hook handles each the same way.
\<close>

datatype 'd event = Call action | Response "'d response"

fun step :: "'d event \<Rightarrow> 'd hook \<Rightarrow> 'd hook option" where
  "step (Call a) h = Some (call a h)"
| "step (Response r) h =
     (if settled h < length (requests h) then Some (fetchDocuments_resume r h) else None)"

fun run :: "'d event list \<Rightarrow> 'd hook \<Rightarrow> 'd hook option" where
  "run [] h = Some h"
| "run (e # es) h = (case step e h of None \<Rightarrow> None | Some h' \<Rightarrow> run es h')"


fun is_rejected :: "'d event \<Rightarrow> bool" where
  "is_rejected (Response (Rejected detail)) = True"
| "is_rejected e = False"

subsection \<open>Derived values\<close>







section \<open>The search panel\<close>

text \<open>
  \<open>String.prototype.trim\<close> removes the white space and line terminators of ECMAScript from
  both ends: tab, line feed, vertical tab, form feed, carriage return, space, no-break space,
  the other space separators of Unicode, the line and paragraph separators and the byte
  order mark.
\<close>

definition is_white_space :: "jschar \<Rightarrow> bool" where
  "is_white_space c =
     ((0x09 \<le> c \<and> c \<le> 0x0D) \<or> c = 0x20 \<or> c = 0xA0 \<or> c = 0x1680
      \<or> (0x2000 \<le> c \<and> c \<le> 0x200A) \<or> c = 0x2028 \<or> c = 0x2029 \<or> c = 0x202F
      \<or> c = 0x205F \<or> c = 0x3000 \<or> c = 0xFEFF)"

definition trim :: "jsstring \<Rightarrow> jsstring" where
  "trim s = rev (dropWhile is_white_space (rev (dropWhile is_white_space s)))"

text \<open>
  The \<open>useState\<close> cells of \<open>SearchPanel.jsx\<close>. The three text inputs hold strings, the
  result is \<open>None\<close> for \<open>null\<close>; the panel never looks inside a result.
\<close>

record 'r search_panel =
  query :: jsstring
  companyFilter :: jsstring
  filingTypeFilter :: jsstring
  search_limit :: int
  search_loading :: bool
  result :: "'r option"
  search_error :: "jsstring option"

text \<open>The body of the \<open>POST /search\<close> request; \<open>None\<close> is \<open>null\<close>.\<close>

record search_request =
  request_query :: jsstring
  company_filter :: "jsstring option"
  filing_type_filter :: "jsstring option"
  request_limit :: int

text \<open>\<open>x || null\<close> on a string: the empty string is falsy.\<close>

definition or_null :: "jsstring \<Rightarrow> jsstring option" where
  "or_null x = (if x = [] then None else Some x)"

text \<open>
  \<open>handleSearch\<close> up to its \<open>await\<close>: the new state of the panel and the request sent, if
  any.
\<close>

definition handleSearch :: "'r search_panel \<Rightarrow> 'r search_panel \<times> search_request option" where
  "handleSearch p =
     (if trim (query p) = []
      then (p\<lparr>search_error := Some (js ''Please enter a search query'')\<rparr>, None)
      else (p\<lparr>search_loading := True, search_error := None, result := None\<rparr>,
            Some \<lparr>request_query = trim (query p),
                  company_filter = or_null (companyFilter p),
                  filing_type_filter = or_null (filingTypeFilter p),
                  request_limit = search_limit p\<rparr>))"

section \<open>The debounced search input\<close>

text \<open>
  Modelled from the spec: \<open>SearchBar.jsx\<close>, the component that debounces the search input, is
  not among the sources. The spec describes a cancellable delayed task: each keystroke
  cancels any pending task and schedules a new one 300ms later, and only a task that runs
  to completion issues a query. The state is the pending task, with the time it is due (in
  milliseconds) and the text it will send, and the queries issued so far.
\<close>

record debounce =
  timer :: "(nat \<times> jsstring) option"
  issued :: "jsstring list"

text \<open>
  Modelled from the spec: the state of the missing \<open>SearchBar.jsx\<close> before any keystroke,
  with no task pending and nothing issued.
\<close>

definition idle :: debounce where
  "idle = \<lparr>timer = None, issued = []\<rparr>"

text \<open>
  Modelled from the spec: the timer callback of the missing \<open>SearchBar.jsx\<close>. The clock
  reaches \<open>now\<close>; a pending task that is due runs and issues its text.
\<close>

definition elapse :: "nat \<Rightarrow> debounce \<Rightarrow> debounce" where
  "elapse now d =
     (case timer d of
        None \<Rightarrow> d
      | Some (due, text) \<Rightarrow>
          if due \<le> now then d\<lparr>timer := None, issued := issued d @ [text]\<rparr> else d)"

text \<open>
  Modelled from the spec: the change handler of the missing \<open>SearchBar.jsx\<close>. A keystroke at
  time \<open>fst k\<close> that leaves the text \<open>snd k\<close> in the input cancels the pending task and
  schedules a new one, due 300ms later.
\<close>

definition keystroke :: "nat \<times> jsstring \<Rightarrow> debounce \<Rightarrow> debounce" where
  "keystroke k d = (elapse (fst k) d)\<lparr>timer := Some (fst k + 300, snd k)\<rparr>"

text \<open>
  Modelled from the spec: a sequence of keystrokes handled by the missing \<open>SearchBar.jsx\<close>,
  one after the other.
\<close>

definition typing :: "(nat \<times> jsstring) list \<Rightarrow> debounce \<Rightarrow> debounce" where
  "typing ks d = foldl (\<lambda>d k. keystroke k d) d ks"

text \<open>
  Modelled from the spec: the input of the missing \<open>SearchBar.jsx\<close> stays quiet until the
  pending task, if any, has run.
\<close>

definition quiet :: "debounce \<Rightarrow> debounce" where
  "quiet d = (case timer d of None \<Rightarrow> d | Some (due, text) \<Rightarrow> elapse due d)"

text \<open>
  Modelled from the spec: a burst of keystrokes on the missing \<open>SearchBar.jsx\<close>, in order of
  time, each less than 300ms after the one before.
\<close>

fun burst :: "(nat \<times> jsstring) list \<Rightarrow> bool" where
  "burst (k # k' # ks) = (fst k \<le> fst k' \<and> fst k' < fst k + 300 \<and> burst (k' # ks))"
| "burst ks = True"

section \<open>Properties of the filter updaters\<close>

lemma set_prop_map_of: "map_of (set_prop k v ps) = (map_of ps)(k \<mapsto> v)"
  by (induction ps) (auto simp: fun_eq_iff)

lemma spread_props_Cons:
  "spread_props ps ((k, v) # qs) = spread_props (set_prop k v ps) qs"
  by (simp add: spread_props_def)

lemma spread_props_absent:
  "k \<notin> fst ` set qs \<Longrightarrow> map_of (spread_props ps qs) k = map_of ps k"
proof (induction qs arbitrary: ps)
  case Nil
  then show ?case by (simp add: spread_props_def)
next
  case (Cons q qs)
  obtain k' v' where q: "q = (k', v')" by (cases q)
  from Cons.prems q have "k \<noteq> k'" and "k \<notin> fst ` set qs" by auto
  then show ?case
    by (simp add: q spread_props_Cons Cons.IH set_prop_map_of)
qed

lemma spread_props_present:
  "distinct (map fst qs) \<Longrightarrow> (k, v) \<in> set qs \<Longrightarrow> map_of (spread_props ps qs) k = Some v"
proof (induction qs arbitrary: ps)
  case Nil
  then show ?case by simp
next
  case (Cons q qs)
  obtain k' v' where q: "q = (k', v')" by (cases q)
  show ?case
  proof (cases "(k, v) \<in> set qs")
    case True
    with Cons show ?thesis by (simp add: q spread_props_Cons)
  next
    case False
    with Cons.prems q have kv: "k' = k" "v' = v" by auto
    from Cons.prems q kv have "k \<notin> fst ` set qs" by auto
    then show ?thesis
      by (simp add: q kv spread_props_Cons spread_props_absent set_prop_map_of)
  qed
qed

text \<open>Writing a property that already has the value changes nothing, not even the order.\<close>

lemma set_prop_same: "map_of ps k = Some v \<Longrightarrow> set_prop k v ps = ps"
  by (induction ps) (auto split: if_splits)

lemma spread_props_same:
  "\<forall>(k, v) \<in> set qs. map_of ps k = Some v \<Longrightarrow> spread_props ps qs = ps"
proof (induction qs)
  case Nil
  show ?case by (simp add: spread_props_def)
next
  case (Cons q qs)
  obtain k v where q: "q = (k, v)" by (cases q)
  with Cons.prems have "set_prop k v ps = ps" by (simp add: set_prop_same)
  with Cons show ?case by (simp add: q spread_props_Cons)
qed

lemma updateFilters_twice:
  assumes "distinct (map fst (new_props p))"
  shows "updateFilters p (updateFilters p f) = updateFilters p f"
proof -
  have "\<forall>(k, v) \<in> set (new_props p).
      map_of (spread_props (other_props f) (new_props p)) k = Some v"
    using assms by (auto simp: spread_props_present)
  then have "spread_props (spread_props (other_props f) (new_props p)) (new_props p)
      = spread_props (other_props f) (new_props p)"
    by (rule spread_props_same)
  then show ?thesis
    by (simp add: updateFilters_def spread_def split: option.splits)
qed

lemma refetch_same: "refetch prev = prev"
  by (simp add: refetch_def spread_def no_filters_def spread_props_def)

section \<open>The request guard\<close>

lemma fetchDocuments_filters: "filters (fetchDocuments h) = filters h"
  by (simp add: fetchDocuments_def Let_def)

lemma fetchDocuments_twice: "fetchDocuments (fetchDocuments h) = fetchDocuments h"
  by (simp add: fetchDocuments_def Let_def)

lemma filters_update_same: "h\<lparr>filters := filters h\<rparr> = h"
  by simp

text \<open>
  Once the effect has run, the ref holds the serialized form of the current filters, and
  \<open>refetch\<close> stores an object that serializes to the same string: the guard returns early.
\<close>

lemma call_Refetch_after_effect: "call Refetch (fetchDocuments h) = fetchDocuments h"
proof -
  have "call Refetch (fetchDocuments h) =
      fetchDocuments ((fetchDocuments h)\<lparr>filters := filters (fetchDocuments h)\<rparr>)"
    by (simp add: call_def refetch_same)
  also have "\<dots> = fetchDocuments (fetchDocuments h)"
    by (simp only: filters_update_same)
  finally show ?thesis
    by (simp only: fetchDocuments_twice)
qed

text \<open>The same payload twice: the second call changes nothing and sends nothing.\<close>

lemma call_UpdateFilters_twice:
  assumes "distinct (map fst (new_props p))"
  shows "call (UpdateFilters p) (call (UpdateFilters p) h) = call (UpdateFilters p) h"
proof -
  let ?h1 = "call (UpdateFilters p) h"
  have "filters ?h1 = updateFilters p (filters h)"
    by (simp add: call_def fetchDocuments_filters)
  then have "?h1\<lparr>filters := setFilters (UpdateFilters p) (filters ?h1)\<rparr> = ?h1"
    by (simp add: updateFilters_twice [OF assms])
  then have "call (UpdateFilters p) ?h1 = fetchDocuments ?h1"
    by (simp only: call_def [of _ ?h1])
  then show ?thesis
    by (simp add: call_def [of _ h] fetchDocuments_twice)
qed

lemma mount_update_update_refetch:
  "(let h0 = useDocuments no_filters :: unit hook;
        h1 = call (UpdateFilters (search_payload (js ''Apple''))) h0;
        h2 = call (UpdateFilters (search_payload (js ''Apple''))) h1;
        h3 = call Refetch h2
    in map (\<lambda>h. length (requests h)) [h0, h1, h2, h3] = [1, 2, 2, 2]
       \<and> filters h3 = filters h2 \<and> prevFiltersRef h3 = prevFiltersRef h2)"
  by code_simp

text \<open>
  C1. Two \<open>updateFilters\<close> calls with the same payload send one list request, and a \<open>refetch\<close>
  after them is meant to send a second one. In the code \<open>refetch\<close> only stores a copy of the
  filter object and leaves \<open>prevFiltersRef\<close> alone, so the guard suppresses it: in every
  state the effect has produced, \<open>refetch\<close> sends nothing and changes nothing. After
  mounting (one request), searching for \<open>Apple\<close> twice (one more request) and calling
  \<open>refetch\<close>, two requests have been sent, not three.
\<close>

theorem refetch_sends_no_request:
  "requests (call Refetch (fetchDocuments h)) = requests (fetchDocuments h)
   \<and> prevFiltersRef (call Refetch (fetchDocuments h)) = prevFiltersRef (fetchDocuments h)
   \<and> (let h0 = useDocuments no_filters :: unit hook;
           h1 = call (UpdateFilters (search_payload (js ''Apple''))) h0;
           h2 = call (UpdateFilters (search_payload (js ''Apple''))) h1;
           h3 = call Refetch h2
       in map (\<lambda>h. length (requests h)) [h0, h1, h2, h3] = [1, 2, 2, 2]
          \<and> filters h3 = filters h2 \<and> prevFiltersRef h3 = prevFiltersRef h2)"
  using mount_update_update_refetch
  by (simp only: call_Refetch_after_effect simp_thms)




section \<open>The pagination invariant\<close>








section \<open>Responses\<close>











lemma fetchDocuments_error_None: "error h = None \<Longrightarrow> error (fetchDocuments h) = None"
  by (simp add: fetchDocuments_def Let_def)

lemma step_unrejected:
  "\<not> is_rejected e \<Longrightarrow> error h = None \<Longrightarrow> step e h = Some h' \<Longrightarrow> error h' = None"
proof (cases e)
  case (Call a)
  assume "error h = None" and "step e h = Some h'"
  with Call show ?thesis by (auto simp: call_def fetchDocuments_error_None)
next
  case (Response r)
  assume "\<not> is_rejected e" and "error h = None" and "step e h = Some h'"
  with Response show ?thesis by (cases r) (auto split: if_splits)
qed

lemma run_unrejected:
  "\<not> list_ex is_rejected evs \<Longrightarrow> error h = None \<Longrightarrow> run evs h = Some h' \<Longrightarrow> error h' = None"
proof (induction evs arbitrary: h)
  case Nil
  then show ?case by simp
next
  case (Cons e evs)
  from Cons.prems obtain h1 where h1: "step e h = Some h1" and rest: "run evs h1 = Some h'"
    by (auto split: option.splits)
  from Cons.prems have "\<not> is_rejected e" and "\<not> list_ex is_rejected evs" by simp_all
  with h1 rest Cons.prems(2) Cons.IH [of h1] step_unrejected [of e h h1] show ?case by simp
qed

lemma run_append:
  "run (es @ es') h = (case run es h of None \<Rightarrow> None | Some h1 \<Rightarrow> run es' h1)"
  by (induction es arbitrary: h) (auto split: option.splits)

text \<open>
  C5. When a request is sent and no failed response arrives before its successful one,
  \<open>documents\<close> and \<open>total\<close> are afterwards exactly the items and total of the response,
  whatever was held before, and \<open>error\<close> is null. The success path itself does not touch
  \<open>error\<close>.
\<close>

theorem successful_fetch_replaces_results:
  assumes "prevFiltersRef h \<noteq> Some (JSON_stringify (filters h))"
    and "\<not> list_ex is_rejected evs"
    and "run (evs @ [Response (Resolved items tot)]) (fetchDocuments h) = Some h'"
  shows "documents h' = items \<and> total h' = tot \<and> error h' = None"
proof -
  from assms(3) obtain h1 where h1: "run evs (fetchDocuments h) = Some h1"
    and last: "step (Response (Resolved items tot)) h1 = Some h'"
    by (auto simp: run_append split: option.splits)
  from assms(1) have "error (fetchDocuments h) = None"
    by (simp add: fetchDocuments_def Let_def)
  then have "error h1 = None"
    by (rule run_unrejected [OF assms(2) _ h1])
  with last show ?thesis by (auto split: if_splits)
qed

lemma mount_update_resolved_resolved:
  "run ([Call (UpdateFilters (search_payload (js ''Apple''))), Response (Resolved [1, 2] 2)]
        @ [Response (Resolved [3] 1)])
     (fetchDocuments (initial_state no_filters :: nat hook)) \<noteq> None"
  by code_simp

theorem successful_fetch_replaces_results_witness:
  "prevFiltersRef (initial_state no_filters :: nat hook)
     \<noteq> Some (JSON_stringify (filters (initial_state no_filters :: nat hook)))
   \<and> \<not> list_ex is_rejected
       [Call (UpdateFilters (search_payload (js ''Apple''))), Response (Resolved [1, 2 :: nat] 2)]
   \<and> (\<exists>h'. run ([Call (UpdateFilters (search_payload (js ''Apple''))),
                  Response (Resolved [1, 2] 2)] @ [Response (Resolved [3] 1)])
              (fetchDocuments (initial_state no_filters :: nat hook)) = Some h'
          \<and> documents h' = [3] \<and> total h' = 1 \<and> error h' = None)"
proof -
  let ?evs = "[Call (UpdateFilters (search_payload (js ''Apple''))),
    Response (Resolved [1, 2] 2)] :: nat event list"
  let ?h = "initial_state no_filters :: nat hook"
  have guard: "prevFiltersRef ?h \<noteq> Some (JSON_stringify (filters ?h))"
    by (simp add: initial_state_def)
  have unrejected: "\<not> list_ex is_rejected ?evs" by simp
  obtain h' where h': "run (?evs @ [Response (Resolved [3] 1)]) (fetchDocuments ?h) = Some h'"
    using mount_update_resolved_resolved by blast
  from successful_fetch_replaces_results [OF guard unrejected h']
  have "documents h' = [3] \<and> total h' = 1 \<and> error h' = None" .
  with guard unrejected h' show ?thesis by blast
qed

text \<open>
  The first request fails after a second one has been sent; when the second succeeds,
  \<open>error\<close> still holds the message of the first.
\<close>

theorem successful_fetch_error_counterexample:
  "map_option error
     (run [Call (UpdateFilters (search_payload (js ''Apple''))), Response (Rejected None),
           Response (Resolved [7] 1)] (useDocuments no_filters :: nat hook))
   = Some (Some (js ''Failed to fetch documents''))"
  by code_simp

section \<open>Paging\<close>












section \<open>Submitting a search\<close>

lemma dropWhile_all:
  "(\<forall>x \<in> set (dropWhile P xs). P x) \<longleftrightarrow> (\<forall>x \<in> set xs. P x)"
proof
  assume all: "\<forall>x \<in> set (dropWhile P xs). P x"
  have "dropWhile P xs = []"
  proof (rule ccontr)
    assume ne: "dropWhile P xs \<noteq> []"
    then have "hd (dropWhile P xs) \<in> set (dropWhile P xs)" by simp
    with all hd_dropWhile [OF ne] show False by blast
  qed
  then show "\<forall>x \<in> set xs. P x" by simp
next
  assume "\<forall>x \<in> set xs. P x"
  then show "\<forall>x \<in> set (dropWhile P xs). P x"
    by (meson set_dropWhileD)
qed

lemma trim_empty_iff: "trim s = [] \<longleftrightarrow> list_all is_white_space s"
proof -
  have "trim s = [] \<longleftrightarrow> (\<forall>x \<in> set (dropWhile is_white_space s). is_white_space x)"
    by (simp add: trim_def)
  then show ?thesis
    by (simp only: dropWhile_all list_all_iff)
qed

lemma trim_suffix:
  "dropWhile is_white_space s =
     trim s @ rev (takeWhile is_white_space (rev (dropWhile is_white_space s)))"
proof -
  let ?t = "dropWhile is_white_space s"
  have "rev (rev ?t) =
      rev (takeWhile is_white_space (rev ?t) @ dropWhile is_white_space (rev ?t))"
    by (simp only: takeWhile_dropWhile_id)
  then show ?thesis
    by (simp only: rev_rev_ident rev_append trim_def)
qed

lemma trim_decompose:
  "s = takeWhile is_white_space s @ trim s
        @ rev (takeWhile is_white_space (rev (dropWhile is_white_space s)))"
proof -
  have "s = takeWhile is_white_space s @ dropWhile is_white_space s" by simp
  with trim_suffix [of s] show ?thesis by simp
qed

lemma trim_ends:
  assumes "trim s \<noteq> []"
  shows "\<not> is_white_space (hd (trim s)) \<and> \<not> is_white_space (last (trim s))"
proof -
  let ?t = "dropWhile is_white_space s"
  let ?u = "dropWhile is_white_space (rev ?t)"
  from assms have u: "?u \<noteq> []" by (simp add: trim_def)
  have t: "?t \<noteq> []"
  proof
    assume "?t = []"
    then have "trim s = []" by (simp only: trim_def rev.simps dropWhile.simps)
    with assms show False by simp
  qed
  have "last (trim s) = hd ?u"
    using u by (simp add: trim_def last_rev)
  then have l: "\<not> is_white_space (last (trim s))"
    using hd_dropWhile [OF u] by simp
  have "hd ?t = hd (trim s)"
    using assms trim_suffix [of s] by (metis hd_append2)
  then have "\<not> is_white_space (hd (trim s))"
    using hd_dropWhile [OF t] by simp
  with l show ?thesis by simp
qed

text \<open>
  C10. Submitting a query that is empty or all white space sends no request, sets the error
  \<open>Please enter a search query\<close> and leaves everything else, the displayed result included,
  as it was. Any other query is sent trimmed: the query without the white space at its two
  ends. An empty company or filing type filter is sent as null.
\<close>

theorem handleSearch_blank_and_trimmed:
  "(list_all is_white_space (query p) \<longrightarrow>
      handleSearch p = (p\<lparr>search_error := Some (js ''Please enter a search query'')\<rparr>, None))
   \<and> (\<not> list_all is_white_space (query p) \<longrightarrow>
      snd (handleSearch p) =
        Some \<lparr>request_query = trim (query p),
              company_filter = (if companyFilter p = [] then None else Some (companyFilter p)),
              filing_type_filter =
                (if filingTypeFilter p = [] then None else Some (filingTypeFilter p)),
              request_limit = search_limit p\<rparr>
      \<and> trim (query p) \<noteq> []
      \<and> \<not> is_white_space (hd (trim (query p))) \<and> \<not> is_white_space (last (trim (query p)))
      \<and> (\<exists>before after. query p = before @ trim (query p) @ after
            \<and> list_all is_white_space before \<and> list_all is_white_space after))"
proof (cases "list_all is_white_space (query p)")
  case True
  then show ?thesis by (simp add: handleSearch_def trim_empty_iff)
next
  case False
  then have ne: "trim (query p) \<noteq> []" by (simp add: trim_empty_iff)
  let ?b = "takeWhile is_white_space (query p)"
  let ?a = "rev (takeWhile is_white_space (rev (dropWhile is_white_space (query p))))"
  have "query p = ?b @ trim (query p) @ ?a" by (rule trim_decompose)
  moreover have "list_all is_white_space ?b" and "list_all is_white_space ?a"
    by (auto simp: list_all_iff dest: set_takeWhileD)
  ultimately have ex: "\<exists>before after. query p = before @ trim (query p) @ after
      \<and> list_all is_white_space before \<and> list_all is_white_space after"
    by blast
  have "snd (handleSearch p) =
        Some \<lparr>request_query = trim (query p),
              company_filter = (if companyFilter p = [] then None else Some (companyFilter p)),
              filing_type_filter =
                (if filingTypeFilter p = [] then None else Some (filingTypeFilter p)),
              request_limit = search_limit p\<rparr>"
    using ne by (simp add: handleSearch_def or_null_def)
  with False ne trim_ends [OF ne] ex show ?thesis by blast
qed

lemma blank_query: "list_all is_white_space (js ''   '')"
  by code_simp

lemma padded_query:
  "\<not> list_all is_white_space (js ''  revenue 2023 '')
   \<and> trim (js ''  revenue 2023 '') = js ''revenue 2023''"
  by code_simp

theorem handleSearch_blank_and_trimmed_witness:
  "list_all is_white_space
     (query \<lparr>query = js ''   '', companyFilter = [], filingTypeFilter = [], search_limit = 5,
             search_loading = False, result = Some (1::nat), search_error = None\<rparr>)
   \<and> snd (handleSearch
        \<lparr>query = js ''   '', companyFilter = [], filingTypeFilter = [], search_limit = 5,
         search_loading = False, result = Some (1::nat), search_error = None\<rparr>) = None
   \<and> result (fst (handleSearch
        \<lparr>query = js ''   '', companyFilter = [], filingTypeFilter = [], search_limit = 5,
         search_loading = False, result = Some (1::nat), search_error = None\<rparr>)) = Some 1
   \<and> \<not> list_all is_white_space
     (query \<lparr>query = js ''  revenue 2023 '', companyFilter = [],
             filingTypeFilter = js ''10-K'', search_limit = 5, search_loading = False,
             result = Some (1::nat), search_error = None\<rparr>)
   \<and> snd (handleSearch
        \<lparr>query = js ''  revenue 2023 '', companyFilter = [],
         filingTypeFilter = js ''10-K'', search_limit = 5, search_loading = False,
         result = Some (1::nat), search_error = None\<rparr>)
      = Some \<lparr>request_query = js ''revenue 2023'', company_filter = None,
              filing_type_filter = Some (js ''10-K''), request_limit = 5\<rparr>"
proof -
  let ?blank = "\<lparr>query = js ''   '', companyFilter = [], filingTypeFilter = [],
    search_limit = 5, search_loading = False, result = Some (1::nat), search_error = None\<rparr>"
  let ?padded = "\<lparr>query = js ''  revenue 2023 '', companyFilter = [],
    filingTypeFilter = js ''10-K'', search_limit = 5, search_loading = False,
    result = Some (1::nat), search_error = None\<rparr>"
  have b: "list_all is_white_space (query ?blank)"
    using blank_query by simp
  have p: "\<not> list_all is_white_space (query ?padded)"
    using padded_query by simp
  have f: "filingTypeFilter ?padded \<noteq> []"
    by (simp add: js_def)
  from handleSearch_blank_and_trimmed [of ?blank] b
  have "handleSearch ?blank
      = (?blank\<lparr>search_error := Some (js ''Please enter a search query'')\<rparr>, None)"
    by blast
  then have blank: "snd (handleSearch ?blank) = None \<and> result (fst (handleSearch ?blank)) = Some 1"
    by simp
  from handleSearch_blank_and_trimmed [of ?padded] p
  have "snd (handleSearch ?padded) =
      Some \<lparr>request_query = trim (query ?padded),
            company_filter = (if companyFilter ?padded = [] then None
              else Some (companyFilter ?padded)),
            filing_type_filter = (if filingTypeFilter ?padded = [] then None
              else Some (filingTypeFilter ?padded)),
            request_limit = search_limit ?padded\<rparr>"
    by blast
  then have "snd (handleSearch ?padded)
      = Some \<lparr>request_query = js ''revenue 2023'', company_filter = None,
              filing_type_filter = Some (js ''10-K''), request_limit = 5\<rparr>"
    using f padded_query by simp
  with b p blank show ?thesis by blast
qed

section \<open>Debouncing\<close>

lemma typing_Cons: "typing (k # ks) d = typing ks (keystroke k d)"
  by (simp add: typing_def)

text \<open>
  Within a burst every keystroke finds the task of the one before still pending, and
  replaces it; nothing is issued meanwhile.
\<close>

lemma typing_burst:
  "burst (k # ks) \<Longrightarrow>
     typing ks (d\<lparr>timer := Some (fst k + 300, snd k)\<rparr>)
       = d\<lparr>timer := Some (fst (last (k # ks)) + 300, snd (last (k # ks)))\<rparr>"
proof (induction ks arbitrary: k d)
  case Nil
  then show ?case by (simp add: typing_def)
next
  case (Cons k' ks)
  from Cons.prems have near: "fst k' < fst k + 300" and rest: "burst (k' # ks)"
    by simp_all
  have "keystroke k' (d\<lparr>timer := Some (fst k + 300, snd k)\<rparr>)
      = d\<lparr>timer := Some (fst k' + 300, snd k')\<rparr>"
    using near by (simp add: keystroke_def elapse_def)
  with Cons.IH [OF rest, of d] show ?case
    by (simp add: typing_Cons)
qed

lemma keystroke_idle: "keystroke k idle = idle\<lparr>timer := Some (fst k + 300, snd k)\<rparr>"
  by (simp add: keystroke_def elapse_def idle_def)

text \<open>
  C9. A burst of keystrokes, each less than 300ms after the one before, issues exactly one
  query once the input has gone quiet, and it carries the text of the last keystroke.
\<close>

theorem debounced_burst_issues_last:
  assumes "burst ks" and "ks \<noteq> []"
  shows "issued (quiet (typing ks idle)) = [snd (last ks)]"
proof -
  from assms(2) obtain k ks' where ks: "ks = k # ks'" by (cases ks) auto
  with assms(1) have "typing ks idle = idle\<lparr>timer := Some (fst (last ks) + 300, snd (last ks))\<rparr>"
    using typing_burst [of k ks' idle]
    by (simp only: typing_Cons keystroke_idle)
  then show ?thesis
    by (simp add: quiet_def elapse_def idle_def)
qed

text \<open>Typing \<open>Apple\<close> one character at a time, within 300ms: one query, \<open>Apple\<close>.\<close>

theorem debounced_burst_issues_last_witness:
  "burst [(0, js ''A''), (60, js ''Ap''), (120, js ''App''), (180, js ''Appl''),
          (240, js ''Apple'')]
   \<and> issued (quiet (typing
        [(0, js ''A''), (60, js ''Ap''), (120, js ''App''), (180, js ''Appl''),
         (240, js ''Apple'')] idle)) = [js ''Apple'']"
  using debounced_burst_issues_last
    [of "[(0, js ''A''), (60, js ''Ap''), (120, js ''App''), (180, js ''Appl''),
          (240, js ''Apple'')]"]
  by simp

end
